theory Spec2Isabelle
  imports Main "HOL-Library.Word"
begin

section \<open>Native handles, machine integers and errors\<close>

text \<open>
  The wrapper classes of \<^verbatim>\<open>IIOSupport.cpp\<close> hold raw pointers to records owned by the
  native driver library. A pointer is modelled as an optional address: \<open>None\<close> is
  \<^verbatim>\<open>nullptr\<close>. \<^verbatim>\<open>size_t\<close> is the 64-bit unsigned word of the Linux targets the driver
  exists for, \<^verbatim>\<open>unsigned int\<close> the 32-bit one; their arithmetic wraps.
  \<^verbatim>\<open>int\<close> and \<^verbatim>\<open>ssize_t\<close> return codes are tested against zero, negated for a
  message and, when not negative, used as a length, so they are integers.
\<close>

type_synonym iio_context_ptr = "nat option"
type_synonym iio_device_ptr = "nat option"
type_synonym iio_channel_ptr = "nat option"
type_synonym iio_buffer_ptr = "nat option"
type_synonym c_str = "string option"
type_synonym size_t = "64 word"
type_synonym uint = "32 word"

text \<open>
  Every \<^verbatim>\<open>throw\<close> of the source is a value: the three exception classes the file
  throws, each with the two strings it is built from. The last two constructors are
  not exceptions. They make explicit where the source reads through a null pointer
  or past the end of an array, which C++ leaves undefined.
\<close>

datatype error =
    SystemException string string
  | NotFoundException string string
  | RangeException string string
  | NullPointerDereference
  | BufferOverread

text \<open>
  The error kinds of the specification, and the kind each thrown exception is.
  No exception class of the source is of kind \<open>ResourceUnavailable\<close>.
\<close>

datatype error_kind = ResourceUnavailable | SystemError | NotFound | RangeError

fun kind_of :: "error \<Rightarrow> error_kind option" where
  "kind_of (SystemException _ _) = Some SystemError"
| "kind_of (NotFoundException _ _) = Some NotFound"
| "kind_of (RangeException _ _) = Some RangeError"
| "kind_of NullPointerDereference = None"
| "kind_of BufferOverread = None"

section \<open>The driver library as a parameter\<close>

text \<open>
  \<^verbatim>\<open>struct iio_data_format\<close>: the two fields the wrapper reads, \<^verbatim>\<open>length\<close> (the
  storage width of one sample in bits) and \<^verbatim>\<open>is_signed\<close>.
\<close>

record iio_data_format =
  length_bits :: uint
  is_signed :: bool

text \<open>
  The native calls the modelled functions make, and the two calls into the
  portability library that turn an error number into text. The driver is not part
  of the wrapper; each call is a field giving the driver's answer. A read of an
  attribute answers with the return code and with the memory found at the
  destination afterwards, addressed by byte offset from the start of the
  destination; offsets at or beyond the capacity passed in lie outside the array.

  Setting a trigger changes what the driver holds, and asking for the trigger reads
  it. The driver's state has a type \<open>'w\<close> of the driver's own choosing:
  \<^verbatim>\<open>iio_device_set_trigger\<close> takes the state and answers with its return code and the
  state it leaves, \<^verbatim>\<open>iio_device_get_trigger\<close> takes the state and answers with its
  return code and the pointer it stored through its second argument.
\<close>

record 'w libiio =
  iio_create_local_context :: "iio_context_ptr"
  iio_device_create_buffer :: "iio_device_ptr \<Rightarrow> size_t \<Rightarrow> bool \<Rightarrow> iio_buffer_ptr"
  iio_device_get_trigger :: "'w \<Rightarrow> iio_device_ptr \<Rightarrow> int \<times> iio_device_ptr"
  iio_device_set_trigger :: "'w \<Rightarrow> iio_device_ptr \<Rightarrow> iio_device_ptr \<Rightarrow> int \<times> 'w"
  iio_channel_get_data_format :: "iio_channel_ptr \<Rightarrow> iio_data_format"
  iio_channel_read :: "iio_channel_ptr \<Rightarrow> iio_buffer_ptr \<Rightarrow> size_t \<Rightarrow> size_t"
  iio_channel_write :: "iio_channel_ptr \<Rightarrow> iio_buffer_ptr \<Rightarrow> size_t \<Rightarrow> size_t"
  iio_device_get_attrs_count :: "iio_device_ptr \<Rightarrow> nat"
  iio_device_get_attr :: "iio_device_ptr \<Rightarrow> nat \<Rightarrow> c_str"
  iio_device_attr_read :: "iio_device_ptr \<Rightarrow> c_str \<Rightarrow> nat \<Rightarrow> int \<times> (nat \<Rightarrow> char)"
  iio_device_attr_write :: "iio_device_ptr \<Rightarrow> c_str \<Rightarrow> string \<Rightarrow> int"
  iio_channel_get_attrs_count :: "iio_channel_ptr \<Rightarrow> nat"
  iio_channel_get_attr :: "iio_channel_ptr \<Rightarrow> nat \<Rightarrow> c_str"
  iio_channel_attr_read :: "iio_channel_ptr \<Rightarrow> c_str \<Rightarrow> nat \<Rightarrow> int \<times> (nat \<Rightarrow> char)"
  iio_channel_attr_write :: "iio_channel_ptr \<Rightarrow> c_str \<Rightarrow> string \<Rightarrow> int"
  Error_last :: int
  Error_getMessage :: "int \<Rightarrow> string"

section \<open>The wrapper objects\<close>

record IIOContextRaw =
  raw_ptr :: iio_context_ptr

text \<open>
  \<open>ctx\<close> is the \<^verbatim>\<open>std::shared_ptr\<close>: \<open>None\<close> when it is empty (after a
  move), otherwise the context object it shares.
\<close>

record IIODevice =
  dev_ctx :: "IIOContextRaw option"
  device :: iio_device_ptr

record IIOChannel =
  chn_ctx :: "IIOContextRaw option"
  channel :: iio_channel_ptr

record IIOBuffer =
  buf_ctx :: "IIOContextRaw option"
  buffer :: iio_buffer_ptr

definition IIODevice_eq :: "IIODevice \<Rightarrow> IIODevice \<Rightarrow> bool" where
  "IIODevice_eq a b = (device a = device b)"

definition IIOChannel_eq :: "IIOChannel \<Rightarrow> IIOChannel \<Rightarrow> bool" where
  "IIOChannel_eq a b = (channel a = channel b)"

subsection \<open>Context construction\<close>

definition IIOContextRaw_ctor :: "'w libiio \<Rightarrow> error + IIOContextRaw" where
  "IIOContextRaw_ctor io =
     (let p = iio_create_local_context io in
      if p = None
      then Inl (SystemException ''IIOContextRaw::IIOContextRaw()''
                 (''iio_create_local_context: '' @ Error_getMessage io (Error_last io)))
      else Inr \<lparr>raw_ptr = p\<rparr>)"

subsection \<open>Channel: sample transfer and element type\<close>

definition IIOChannel_read :: "'w libiio \<Rightarrow> IIOChannel \<Rightarrow> IIOBuffer \<Rightarrow> size_t \<Rightarrow> size_t" where
  "IIOChannel_read io this buf sample_count =
     (let format = iio_channel_get_data_format io (channel this);
          len = sample_count * ucast (length_bits format)
      in iio_channel_read io (channel this) (buffer buf) len)"

definition IIOChannel_write :: "'w libiio \<Rightarrow> IIOChannel \<Rightarrow> IIOBuffer \<Rightarrow> size_t \<Rightarrow> size_t" where
  "IIOChannel_write io this buf sample_count =
     (let format = iio_channel_get_data_format io (channel this);
          len = sample_count * ucast (length_bits format div 8)
      in iio_channel_write io (channel this) (buffer buf) len)"

text \<open>
  \<^verbatim>\<open>Pothos::DType\<close> as the source builds it: from a \<^verbatim>\<open>typeid\<close> and a dimension, which
  is 1 when the constructor is given the type alone.
\<close>

datatype type_info =
    typeid_int8_t | typeid_uint8_t
  | typeid_int16_t | typeid_uint16_t
  | typeid_int32_t | typeid_uint32_t
  | typeid_int64_t | typeid_uint64_t
  | typeid_char

datatype DType = DType type_info size_t

definition IIOChannel_dtype :: "'w libiio \<Rightarrow> IIOChannel \<Rightarrow> DType" where
  "IIOChannel_dtype io this =
     (let format = iio_channel_get_data_format io (channel this) in
      if length_bits format = 8 then
        (if is_signed format then DType typeid_int8_t 1 else DType typeid_uint8_t 1)
      else if length_bits format = 16 then
        (if is_signed format then DType typeid_int16_t 1 else DType typeid_uint16_t 1)
      else if length_bits format = 32 then
        (if is_signed format then DType typeid_int32_t 1 else DType typeid_uint32_t 1)
      else if length_bits format = 64 then
        (if is_signed format then DType typeid_int64_t 1 else DType typeid_uint64_t 1)
      else DType typeid_char (ucast (length_bits format div 8)))"

text \<open>
  What the element types are: the size in bytes of one element of each C++ type, and
  whether the type is one of the fixed-width integers (with its signedness) or the
  plain byte \<^verbatim>\<open>char\<close> that the default branch uses for an opaque blob.
\<close>

fun sizeof_type :: "type_info \<Rightarrow> nat" where
  "sizeof_type typeid_int8_t = 1"
| "sizeof_type typeid_uint8_t = 1"
| "sizeof_type typeid_int16_t = 2"
| "sizeof_type typeid_uint16_t = 2"
| "sizeof_type typeid_int32_t = 4"
| "sizeof_type typeid_uint32_t = 4"
| "sizeof_type typeid_int64_t = 8"
| "sizeof_type typeid_uint64_t = 8"
| "sizeof_type typeid_char = 1"

fun fixed_width_int :: "type_info \<Rightarrow> (nat \<times> bool) option" where
  "fixed_width_int typeid_int8_t = Some (8, True)"
| "fixed_width_int typeid_uint8_t = Some (8, False)"
| "fixed_width_int typeid_int16_t = Some (16, True)"
| "fixed_width_int typeid_uint16_t = Some (16, False)"
| "fixed_width_int typeid_int32_t = Some (32, True)"
| "fixed_width_int typeid_uint32_t = Some (32, False)"
| "fixed_width_int typeid_int64_t = Some (64, True)"
| "fixed_width_int typeid_uint64_t = Some (64, False)"
| "fixed_width_int typeid_char = None"

fun DType_size :: "DType \<Rightarrow> nat" where
  "DType_size (DType t d) = sizeof_type t * unat d"

fun DType_elem :: "DType \<Rightarrow> type_info" where
  "DType_elem (DType t d) = t"

subsection \<open>Device: trigger association and buffer creation\<close>

definition IIODevice_trigger :: "'w libiio \<Rightarrow> 'w \<Rightarrow> IIODevice \<Rightarrow> error + IIODevice" where
  "IIODevice_trigger io w this =
     (case iio_device_get_trigger io w (device this) of
        (ret, trigger) \<Rightarrow>
          if ret \<noteq> 0
          then Inl (SystemException ''IIODevice::trigger()''
                     (''iio_device_get_trigger: '' @ Error_getMessage io (- ret)))
          else if trigger = None
          then Inl (NotFoundException ''IIODevice::trigger()'' ''Trigger not set'')
          else Inr \<lparr>dev_ctx = dev_ctx this, device = trigger\<rparr>)"

text \<open>
  \<^verbatim>\<open>setTrigger(IIODevice *trigger)\<close> takes a pointer and reads \<^verbatim>\<open>trigger->device\<close>
  before anything else, so the argument is an optional device and the read through
  \<^verbatim>\<open>nullptr\<close> is the first branch, which never reaches the driver. The result is
  the outcome of the call together with the state the driver is left in, which is
  the state after \<^verbatim>\<open>iio_device_set_trigger\<close> whether or not the wrapper then throws.
\<close>

definition IIODevice_setTrigger ::
    "'w libiio \<Rightarrow> 'w \<Rightarrow> IIODevice \<Rightarrow> IIODevice option \<Rightarrow> (error + unit) \<times> 'w" where
  "IIODevice_setTrigger io w this trigger =
     (case trigger of
        None \<Rightarrow> (Inl NullPointerDereference, w)
      | Some t \<Rightarrow>
          (case iio_device_set_trigger io w (device this) (device t) of
             (ret, w') \<Rightarrow>
               (if ret \<noteq> 0
                then Inl (SystemException ''IIODevice::setTrigger()''
                           (''iio_device_set_trigger: '' @ Error_getMessage io (- ret)))
                else Inr (),
                w')))"

definition IIOBuffer_ctor ::
    "'w libiio \<Rightarrow> IIOContextRaw option \<Rightarrow> IIODevice \<Rightarrow> size_t \<Rightarrow> bool \<Rightarrow> error + IIOBuffer" where
  "IIOBuffer_ctor io ctx dev samples_count cyclic =
     (let b = iio_device_create_buffer io (device dev) samples_count cyclic in
      if b = None
      then Inl (SystemException ''IIOBuffer::IIOBuffer()''
                 (''iio_device_create_buffer: '' @ Error_getMessage io (Error_last io)))
      else Inr \<lparr>buf_ctx = ctx, buffer = b\<rparr>)"

definition IIODevice_createBuffer :: "'w libiio \<Rightarrow> IIODevice \<Rightarrow> size_t \<Rightarrow> bool \<Rightarrow> error + IIOBuffer" where
  "IIODevice_createBuffer io this samples_count cyclic =
     IIOBuffer_ctor io (dev_ctx this) this samples_count cyclic"

subsection \<open>Buffer: move construction and destruction\<close>

text \<open>
  The move constructor returns the new object and what is left of the source.
  The destructor's only effect is the call of \<^verbatim>\<open>iio_buffer_destroy\<close>; the state it
  acts on is the list of the regions released so far, in call order.
\<close>

definition IIOBuffer_move :: "IIOBuffer \<Rightarrow> IIOBuffer \<times> IIOBuffer" where
  "IIOBuffer_move other =
     (\<lparr>buf_ctx = buf_ctx other, buffer = buffer other\<rparr>,
      other\<lparr>buf_ctx := None, buffer := None\<rparr>)"

definition iio_buffer_destroy :: "iio_buffer_ptr \<Rightarrow> iio_buffer_ptr list \<Rightarrow> iio_buffer_ptr list" where
  "iio_buffer_destroy p released = released @ [p]"

definition IIOBuffer_dtor :: "IIOBuffer \<Rightarrow> iio_buffer_ptr list \<Rightarrow> iio_buffer_ptr list" where
  "IIOBuffer_dtor this released =
     (if buffer this \<noteq> None then iio_buffer_destroy (buffer this) released else released)"

text \<open>
  A program that uses buffers is a sequence of events on the buffer objects alive:
  move-constructing a new object from the \<open>i\<close>-th one, or ending the lifetime of the
  \<open>i\<close>-th one, which runs its destructor. An event naming no live object does nothing.
\<close>

record buffers =
  alive :: "IIOBuffer list"
  released :: "iio_buffer_ptr list"

datatype event = Move nat | Destroy nat

fun step :: "buffers \<Rightarrow> event \<Rightarrow> buffers" where
  "step s (Move i) =
     (if i < length (alive s)
      then (case IIOBuffer_move (alive s ! i) of
              (new, old) \<Rightarrow> s\<lparr>alive := (alive s)[i := old] @ [new]\<rparr>)
      else s)"
| "step s (Destroy i) =
     (if i < length (alive s)
      then \<lparr>alive = take i (alive s) @ drop (Suc i) (alive s),
            released = IIOBuffer_dtor (alive s ! i) (released s)\<rparr>
      else s)"

definition run :: "buffers \<Rightarrow> event list \<Rightarrow> buffers" where
  "run s es = foldl step s es"

definition owners :: "iio_buffer_ptr \<Rightarrow> IIOBuffer list \<Rightarrow> nat" where
  "owners p bs = length (filter (\<lambda>b. buffer b = p) bs)"

text \<open>
  A mapped region is accounted for when the number of live objects that hold it and
  the number of times it has been released add up to one.
\<close>

definition accounted :: "iio_buffer_ptr \<Rightarrow> buffers \<Rightarrow> bool" where
  "accounted p s = (owners p (alive s) + count_list (released s) p = 1)"

section \<open>Attributes\<close>

text \<open>
  The templates \<^verbatim>\<open>IIOAttrs<T>\<close> and \<^verbatim>\<open>IIOAttr<T>\<close> use four member functions of the
  owner \<^verbatim>\<open>T\<close> and its equality, which compares native handles. An owner is the record
  of these; \<^verbatim>\<open>IIODevice\<close> and \<^verbatim>\<open>IIOChannel\<close> supply them by forwarding to the driver.
  An index is a natural number: the loop of \<^verbatim>\<open>at()\<close> stops at \<^verbatim>\<open>end()\<close>, which is
  \<^verbatim>\<open>size()\<close>, before an increment could wrap.
\<close>

record owner =
  handle :: "nat option"
  iio_get_attrs_count :: nat
  iio_get_attr :: "nat \<Rightarrow> c_str"
  iio_attr_read :: "c_str \<Rightarrow> nat \<Rightarrow> int \<times> (nat \<Rightarrow> char)"
  iio_attr_write :: "c_str \<Rightarrow> string \<Rightarrow> int"

definition IIODevice_owner :: "'w libiio \<Rightarrow> IIODevice \<Rightarrow> owner" where
  "IIODevice_owner io this =
     \<lparr>handle = device this,
      iio_get_attrs_count = iio_device_get_attrs_count io (device this),
      iio_get_attr = iio_device_get_attr io (device this),
      iio_attr_read = iio_device_attr_read io (device this),
      iio_attr_write = iio_device_attr_write io (device this)\<rparr>"

definition IIOChannel_owner :: "'w libiio \<Rightarrow> IIOChannel \<Rightarrow> owner" where
  "IIOChannel_owner io this =
     \<lparr>handle = channel this,
      iio_get_attrs_count = iio_channel_get_attrs_count io (channel this),
      iio_get_attr = iio_channel_get_attr io (channel this),
      iio_attr_read = iio_channel_attr_read io (channel this),
      iio_attr_write = iio_channel_attr_write io (channel this)\<rparr>"

record IIOAttr =
  attr_parent :: owner
  attr :: c_str

record Iterator =
  it_parent :: owner
  idx :: nat

record IIOAttrs =
  parent :: owner

definition Iterator_incr :: "Iterator \<Rightarrow> Iterator" where
  "Iterator_incr it = it\<lparr>idx := idx it + 1\<rparr>"

definition Iterator_eq :: "Iterator \<Rightarrow> Iterator \<Rightarrow> bool" where
  "Iterator_eq a b = (handle (it_parent a) = handle (it_parent b) \<and> idx a = idx b)"

definition Iterator_deref :: "Iterator \<Rightarrow> error + IIOAttr" where
  "Iterator_deref it =
     (if idx it > iio_get_attrs_count (it_parent it)
      then Inl (RangeException ''IIOAttrs<T>::Iterator::operator*()'' ''iterator out of range'')
      else Inr \<lparr>attr_parent = it_parent it, attr = iio_get_attr (it_parent it) (idx it)\<rparr>)"

definition IIOAttrs_size :: "IIOAttrs \<Rightarrow> nat" where
  "IIOAttrs_size this = iio_get_attrs_count (parent this)"

definition IIOAttrs_empty :: "IIOAttrs \<Rightarrow> bool" where
  "IIOAttrs_empty this = (IIOAttrs_size this = 0)"

definition IIOAttrs_begin :: "IIOAttrs \<Rightarrow> Iterator" where
  "IIOAttrs_begin this = \<lparr>it_parent = parent this, idx = 0\<rparr>"

definition IIOAttrs_end :: "IIOAttrs \<Rightarrow> Iterator" where
  "IIOAttrs_end this = \<lparr>it_parent = parent this, idx = IIOAttrs_size this\<rparr>"

text \<open>\<^verbatim>\<open>std::string(this->attr)\<close> reads the characters \<^verbatim>\<open>attr\<close> points to.\<close>

definition IIOAttr_name :: "IIOAttr \<Rightarrow> error + string" where
  "IIOAttr_name this = (case attr this of None \<Rightarrow> Inl NullPointerDereference | Some s \<Rightarrow> Inr s)"

definition IIODevice_attributes :: "'w libiio \<Rightarrow> IIODevice \<Rightarrow> IIOAttrs" where
  "IIODevice_attributes io this = \<lparr>parent = IIODevice_owner io this\<rparr>"

definition IIOChannel_attributes :: "'w libiio \<Rightarrow> IIOChannel \<Rightarrow> IIOAttrs" where
  "IIOChannel_attributes io this = \<lparr>parent = IIOChannel_owner io this\<rparr>"

text \<open>
  \<^verbatim>\<open>at(name)\<close> is a range-based \<^verbatim>\<open>for\<close>: \<^verbatim>\<open>begin()\<close> and \<^verbatim>\<open>end()\<close> are taken once, and
  each round compares the iterators, dereferences, compares the name and increments.
  A round is repeated only after a dereference that did not throw, which bounds the
  index by the count.
\<close>

function at_loop :: "string \<Rightarrow> Iterator \<Rightarrow> Iterator \<Rightarrow> error + IIOAttr" where
  "at_loop name it stop =
     (if Iterator_eq it stop
      then Inl (RangeException ''IIOAttr<T>::at()'' ''attribute not found'')
      else (case Iterator_deref it of
              Inl e \<Rightarrow> Inl e
            | Inr a \<Rightarrow>
                (case IIOAttr_name a of
                   Inl e \<Rightarrow> Inl e
                 | Inr n \<Rightarrow> if n = name then Inr a else at_loop name (Iterator_incr it) stop)))"
  by pat_completeness auto
termination
  by (relation "measure (\<lambda>(name, it, stop). Suc (iio_get_attrs_count (it_parent it)) - idx it)")
     (auto simp: Iterator_deref_def Iterator_incr_def split: if_splits)

definition IIOAttrs_at :: "IIOAttrs \<Rightarrow> string \<Rightarrow> error + IIOAttr" where
  "IIOAttrs_at this name = at_loop name (IIOAttrs_begin this) (IIOAttrs_end this)"

text \<open>
  The attributes a full iteration visits: the dereference of every iterator from
  \<^verbatim>\<open>begin()\<close> up to \<^verbatim>\<open>end()\<close>; and the names it visits: \<^verbatim>\<open>name()\<close> of each.
\<close>

definition visited :: "IIOAttrs \<Rightarrow> (error + IIOAttr) list" where
  "visited this =
     map (\<lambda>i. Iterator_deref \<lparr>it_parent = parent this, idx = i\<rparr>) [0..<IIOAttrs_size this]"

definition visited_names :: "IIOAttrs \<Rightarrow> (error + string) list" where
  "visited_names this =
     map (\<lambda>v. case v of Inl e \<Rightarrow> Inl e | Inr a \<Rightarrow> IIOAttr_name a) (visited this)"

subsection \<open>Reading and writing a value\<close>

text \<open>
  \<^verbatim>\<open>strnlen(s, maxlen)\<close> of the C library looks at \<^verbatim>\<open>s[0]\<close>, \<^verbatim>\<open>s[1]\<close>, ... and stops at
  the first null byte or after \<^verbatim>\<open>maxlen\<close> bytes. \<open>strnlen_from\<close> is the length it
  returns and \<open>strnlen_reads_from\<close> the offsets it looks at, both started at offset
  \<open>i\<close> with \<open>k\<close> bytes left.
\<close>

fun strnlen_from :: "(nat \<Rightarrow> char) \<Rightarrow> nat \<Rightarrow> nat \<Rightarrow> nat" where
  "strnlen_from s i 0 = i"
| "strnlen_from s i (Suc k) = (if s i = CHR 0x00 then i else strnlen_from s (Suc i) k)"

fun strnlen_reads_from :: "(nat \<Rightarrow> char) \<Rightarrow> nat \<Rightarrow> nat \<Rightarrow> nat list" where
  "strnlen_reads_from s i 0 = []"
| "strnlen_reads_from s i (Suc k) =
     i # (if s i = CHR 0x00 then [] else strnlen_reads_from s (Suc i) k)"

definition strnlen :: "(nat \<Rightarrow> char) \<Rightarrow> nat \<Rightarrow> nat" where
  "strnlen s maxlen = strnlen_from s 0 maxlen"

definition strnlen_reads :: "(nat \<Rightarrow> char) \<Rightarrow> nat \<Rightarrow> nat list" where
  "strnlen_reads s maxlen = strnlen_reads_from s 0 maxlen"

text \<open>\<^verbatim>\<open>char buf[1024]\<close>: the capacity passed to the driver as \<^verbatim>\<open>sizeof(buf)\<close>.\<close>

definition sizeof_buf :: nat where
  "sizeof_buf = 1024"

text \<open>
  \<^verbatim>\<open>operator std::string()\<close>. After the driver's read, \<open>buf\<close> is the memory at the
  scratch array; only offsets below \<open>sizeof_buf\<close> belong to the array. The string is
  built from the first \<^verbatim>\<open>strnlen(buf, ret)\<close> bytes. A scan that looks at an offset
  outside the array is the over-read.
\<close>

definition IIOAttr_to_string :: "'w libiio \<Rightarrow> IIOAttr \<Rightarrow> error + string" where
  "IIOAttr_to_string io this =
     (case iio_attr_read (attr_parent this) (attr this) sizeof_buf of
        (ret, buf) \<Rightarrow>
          if ret < 0
          then Inl (SystemException ''IIOAttr<T>::operator std::string()''
                     (''iio_attr_read: '' @ Error_getMessage io (- ret)))
          else if \<exists>i \<in> set (strnlen_reads buf (nat ret)). sizeof_buf \<le> i
          then Inl BufferOverread
          else Inr (map buf [0..<strnlen buf (nat ret)]))"

definition IIOAttr_value :: "'w libiio \<Rightarrow> IIOAttr \<Rightarrow> error + string" where
  "IIOAttr_value io this = IIOAttr_to_string io this"

definition IIOAttr_assign :: "'w libiio \<Rightarrow> IIOAttr \<Rightarrow> string \<Rightarrow> error + IIOAttr" where
  "IIOAttr_assign io this other =
     (let ret = iio_attr_write (attr_parent this) (attr this) other in
      if ret < 0
      then Inl (SystemException ''IIOAttr<T>::operator=()''
                 (''iio_attr_write: '' @ Error_getMessage io (- ret)))
      else Inr this)"

text \<open>
  The result the specification describes: the contents of the scratch array, cut at
  the first null byte and at \<open>n\<close> bytes, whichever comes first.
\<close>

definition truncated :: "(nat \<Rightarrow> char) \<Rightarrow> nat \<Rightarrow> string" where
  "truncated buf n = take n (takeWhile (\<lambda>c. c \<noteq> CHR 0x00) (map buf [0..<sizeof_buf]))"

section \<open>Concrete drivers for evaluation\<close>

text \<open>
  A driver that answers every call with success and nothing to report, and that
  keeps in its state, for each device, the trigger last set for it; the state in
  which no device has a trigger; and an owner whose attribute names are a table and
  whose read answers with a given code and given memory. Out of range the table
  answers with a null name.
\<close>

type_synonym trigger_table = "iio_device_ptr \<Rightarrow> iio_device_ptr"

definition no_triggers :: trigger_table where
  "no_triggers d = None"

definition idle_driver :: "trigger_table libiio" where
  "idle_driver =
     \<lparr>iio_create_local_context = Some 1,
      iio_device_create_buffer = (\<lambda>d n c. Some 7),
      iio_device_get_trigger = (\<lambda>w d. (0, w d)),
      iio_device_set_trigger = (\<lambda>w d t. (0, w(d := t))),
      iio_channel_get_data_format = (\<lambda>c. \<lparr>length_bits = 16, is_signed = True\<rparr>),
      iio_channel_read = (\<lambda>c b len. len),
      iio_channel_write = (\<lambda>c b len. len),
      iio_device_get_attrs_count = (\<lambda>d. 0),
      iio_device_get_attr = (\<lambda>d i. None),
      iio_device_attr_read = (\<lambda>d a n. (0, (\<lambda>i. CHR 0x00))),
      iio_device_attr_write = (\<lambda>d a v. 0),
      iio_channel_get_attrs_count = (\<lambda>c. 0),
      iio_channel_get_attr = (\<lambda>c i. None),
      iio_channel_attr_read = (\<lambda>c a n. (0, (\<lambda>i. CHR 0x00))),
      iio_channel_attr_write = (\<lambda>c a v. 0),
      Error_last = 19,
      Error_getMessage = (\<lambda>e. ''No such device'')\<rparr>"

definition table_owner :: "string list \<Rightarrow> int \<Rightarrow> (nat \<Rightarrow> char) \<Rightarrow> owner" where
  "table_owner names ret mem =
     \<lparr>handle = Some 3,
      iio_get_attrs_count = length names,
      iio_get_attr = (\<lambda>i. if i < length names then Some (names ! i) else None),
      iio_attr_read = (\<lambda>a n. (ret, mem)),
      iio_attr_write = (\<lambda>a v. 0)\<rparr>"

text \<open>
  Memory without a null byte, memory holding \<^verbatim>\<open>"42"\<close> and a terminator, an attribute
  whose read answers 1025 over memory without a null byte, one whose read answers 3
  over \<^verbatim>\<open>"42"\<close>, and a collection of three attributes, two of them with the same name.
\<close>

definition unterminated :: "nat \<Rightarrow> char" where
  "unterminated i = CHR ''x''"

definition text42 :: "nat \<Rightarrow> char" where
  "text42 i = (if i = 0 then CHR ''4'' else if i = 1 then CHR ''2'' else CHR 0x00)"

definition long_attr :: IIOAttr where
  "long_attr = \<lparr>attr_parent = table_owner [''raw''] 1025 unterminated, attr = Some ''raw''\<rparr>"

definition short_attr :: IIOAttr where
  "short_attr = \<lparr>attr_parent = table_owner [''raw''] 3 text42, attr = Some ''raw''\<rparr>"

definition gain_attrs :: IIOAttrs where
  "gain_attrs = \<lparr>parent = table_owner [''gain'', ''rate'', ''gain''] 0 text42\<rparr>"

text \<open>A collection of three attributes whose driver answers with a null name for the second.\<close>

definition holed_attrs :: IIOAttrs where
  "holed_attrs =
     \<lparr>parent =
        \<lparr>handle = Some 3,
         iio_get_attrs_count = 3,
         iio_get_attr =
           (\<lambda>i. if i = 0 then Some ''gain'' else if i = 2 then Some ''rate'' else None),
         iio_attr_read = (\<lambda>a n. (0, text42)),
         iio_attr_write = (\<lambda>a v. 0)\<rparr>\<rparr>"

text \<open>The kind of error an operation failed with, if it threw.\<close>

definition failure_kind :: "error + 'a \<Rightarrow> error_kind option" where
  "failure_kind r = (case r of Inl e \<Rightarrow> kind_of e | Inr v \<Rightarrow> None)"

definition ctx1 :: "IIOContextRaw option" where
  "ctx1 = Some \<lparr>raw_ptr = Some 1\<rparr>"

definition dev1 :: IIODevice where
  "dev1 = \<lparr>dev_ctx = ctx1, device = Some 4\<rparr>"

definition dev2 :: IIODevice where
  "dev2 = \<lparr>dev_ctx = ctx1, device = Some 5\<rparr>"

definition chn1 :: IIOChannel where
  "chn1 = \<lparr>chn_ctx = ctx1, channel = Some 2\<rparr>"

definition buf1 :: IIOBuffer where
  "buf1 = \<lparr>buf_ctx = ctx1, buffer = Some 7\<rparr>"

definition chn2 :: IIOChannel where
  "chn2 = \<lparr>chn_ctx = ctx1, channel = Some 3\<rparr>"

text \<open>A driver whose first channel has signed 16-bit samples and whose others have 24-bit ones.\<close>

definition mixed_driver :: "trigger_table libiio" where
  "mixed_driver =
     idle_driver\<lparr>iio_channel_get_data_format :=
       (\<lambda>c. if c = Some 2 then \<lparr>length_bits = 16, is_signed = True\<rparr>
            else \<lparr>length_bits = 24, is_signed = False\<rparr>)\<rparr>"

text \<open>A driver whose first channel has 12-bit samples and whose others have 4-bit ones.\<close>

definition narrow_driver :: "trigger_table libiio" where
  "narrow_driver =
     idle_driver\<lparr>iio_channel_get_data_format :=
       (\<lambda>c. if c = Some 2 then \<lparr>length_bits = 12, is_signed = False\<rparr>
            else \<lparr>length_bits = 4, is_signed = False\<rparr>)\<rparr>"

text \<open>
  A driver that can create neither a context nor a buffer, and one that accepts
  every trigger it is given and reports the device with handle 5 as the trigger of
  every device, whatever was set.
\<close>

definition failing_driver :: "trigger_table libiio" where
  "failing_driver =
     idle_driver\<lparr>iio_create_local_context := None,
                 iio_device_create_buffer := (\<lambda>d n c. None)\<rparr>"

definition triggered_driver :: "trigger_table libiio" where
  "triggered_driver = idle_driver\<lparr>iio_device_get_trigger := (\<lambda>w d. (0, Some 5))\<rparr>"

definition dev3 :: IIODevice where
  "dev3 = \<lparr>dev_ctx = ctx1, device = Some 6\<rparr>"

section \<open>Sample transfer size\<close>

text \<open>
  C1. \<^verbatim>\<open>Channel.read\<close> is claimed to request \<open>sampleCount\<close> times the element width in
  bytes, as \<^verbatim>\<open>write\<close> does with the bit width divided by 8. With a driver that
  reports 16-bit samples and transfers what it is asked for, four samples are eight
  bytes, which is what \<^verbatim>\<open>write\<close> requests; \<^verbatim>\<open>read\<close> multiplies by the width in bits,
  for every driver and channel, and here requests 64.
\<close>

theorem read_requests_bit_width_span:
  "IIOChannel_read io this buf n =
     iio_channel_read io (channel this) (buffer buf)
       (n * ucast (length_bits (iio_channel_get_data_format io (channel this))))
   \<and> IIOChannel_write io this buf n =
     iio_channel_write io (channel this) (buffer buf)
       (n * ucast (length_bits (iio_channel_get_data_format io (channel this)) div 8))
   \<and> IIOChannel_read idle_driver chn1 buf1 4 = 64
   \<and> IIOChannel_write idle_driver chn1 buf1 4 = 8"
  by (simp add: IIOChannel_read_def IIOChannel_write_def idle_driver_def)

section \<open>Attribute iteration\<close>

text \<open>
  C2. Dereferencing an iterator is claimed to fail with a range error whenever its
  index is at least the owner's attribute count. The guard of the source compares
  with \<^verbatim>\<open>>\<close>, so the range error is thrown exactly for an index above the count.
  At an index equal to the count nothing is thrown and the attribute returned is
  built from what the driver answers one past its last name: with two attributes
  and index 2, the null name.
\<close>

theorem deref_at_count_returns:
  "(failure_kind (Iterator_deref it) = Some RangeError
      \<longleftrightarrow> iio_get_attrs_count (it_parent it) < idx it)
   \<and> Iterator_deref \<lparr>it_parent = p, idx = iio_get_attrs_count p\<rparr>
     = Inr \<lparr>attr_parent = p, attr = iio_get_attr p (iio_get_attrs_count p)\<rparr>
   \<and> Iterator_deref \<lparr>it_parent = table_owner [''a'', ''b''] 0 text42, idx = 2\<rparr>
     = Inr \<lparr>attr_parent = table_owner [''a'', ''b''] 0 text42, attr = None\<rparr>"
  by (simp add: Iterator_deref_def table_owner_def failure_kind_def)

section \<open>Trigger association\<close>

text \<open>
  C3. \<^verbatim>\<open>setTrigger\<close> with a null argument is claimed to be a well-defined call that
  clears the association. For every driver and every device the source reads the
  handle through the null pointer before it calls the driver, whose state is left
  as it was. With a device as the argument it does what is claimed: it passes the
  two handles to the driver, fails with \<open>SystemError\<close> exactly when the driver
  returns a non-zero code and returns normally otherwise.
\<close>

theorem setTrigger_null_faults:
  "IIODevice_setTrigger io w this None = (Inl NullPointerDereference, w)
   \<and> (failure_kind (fst (IIODevice_setTrigger io w this (Some t))) = Some SystemError
        \<longleftrightarrow> fst (iio_device_set_trigger io w (device this) (device t)) \<noteq> 0)
   \<and> (fst (IIODevice_setTrigger io w this (Some t)) = Inr ()
        \<longleftrightarrow> fst (iio_device_set_trigger io w (device this) (device t)) = 0)
   \<and> snd (IIODevice_setTrigger io w this (Some t))
        = snd (iio_device_set_trigger io w (device this) (device t))"
  by (simp add: IIODevice_setTrigger_def failure_kind_def split_beta)

text \<open>
  C6. \<^verbatim>\<open>trigger()\<close> is claimed to return, when it does not fail, a device equal to
  the one previously set via \<^verbatim>\<open>setTrigger\<close>. The wrapper keeps nothing of what was
  set: it returns what the driver reports. With a driver that accepts the trigger
  with handle 6 and then reports the device with handle 5, \<^verbatim>\<open>setTrigger\<close> succeeds
  and \<^verbatim>\<open>trigger()\<close> returns a device that is not equal to the one set.
\<close>

theorem trigger_after_set_counterexample:
  "fst (IIODevice_setTrigger triggered_driver no_triggers dev1 (Some dev3)) = Inr ()
   \<and> IIODevice_trigger triggered_driver
        (snd (IIODevice_setTrigger triggered_driver no_triggers dev1 (Some dev3))) dev1
       = Inr dev2
   \<and> \<not> IIODevice_eq dev2 dev3"
  by (simp add: IIODevice_setTrigger_def IIODevice_trigger_def IIODevice_eq_def
      triggered_driver_def idle_driver_def dev1_def dev2_def dev3_def)

text \<open>
  C6, amended. In every state of the driver, \<^verbatim>\<open>trigger()\<close> fails with \<open>NotFound\<close>
  exactly when the driver call succeeds (returns 0) and reports no trigger, fails
  with \<open>SystemError\<close> exactly when the driver call returns a non-zero code, and
  otherwise returns a device that shares this device's context and whose handle is
  the trigger the driver reported. With a driver that, after it has accepted a
  trigger for a device, reports that trigger for that device, \<^verbatim>\<open>trigger()\<close> in the
  state a successful \<^verbatim>\<open>setTrigger(&other)\<close> leaves returns a device equal to \<open>other\<close>.
\<close>

theorem trigger_outcomes:
  assumes "iio_device_get_trigger io w (device this) = (ret, trig)"
  shows "(failure_kind (IIODevice_trigger io w this) = Some NotFound \<longleftrightarrow> ret = 0 \<and> trig = None)
       \<and> (failure_kind (IIODevice_trigger io w this) = Some SystemError \<longleftrightarrow> ret \<noteq> 0)
       \<and> (ret = 0 \<and> trig \<noteq> None \<longrightarrow>
            IIODevice_trigger io w this = Inr \<lparr>dev_ctx = dev_ctx this, device = trig\<rparr>)
       \<and> ((\<forall>v d t v'. iio_device_set_trigger io v d t = (0, v') \<longrightarrow>
                        iio_device_get_trigger io v' d = (0, t))
            \<and> IIODevice_setTrigger io before this (Some other) = (Inr (), w)
            \<and> device other \<noteq> None \<longrightarrow>
            (\<exists>r. IIODevice_trigger io w this = Inr r \<and> IIODevice_eq r other))"
proof -
  have outcome: "IIODevice_trigger io w this =
      (if ret \<noteq> 0
       then Inl (SystemException ''IIODevice::trigger()''
                  (''iio_device_get_trigger: '' @ Error_getMessage io (- ret)))
       else if trig = None
       then Inl (NotFoundException ''IIODevice::trigger()'' ''Trigger not set'')
       else Inr \<lparr>dev_ctx = dev_ctx this, device = trig\<rparr>)"
    using assms by (simp add: IIODevice_trigger_def)
  have round_trip: "\<exists>r. IIODevice_trigger io w this = Inr r \<and> IIODevice_eq r other"
    if law: "\<forall>v d t v'. iio_device_set_trigger io v d t = (0, v') \<longrightarrow>
                        iio_device_get_trigger io v' d = (0, t)"
      and set: "IIODevice_setTrigger io before this (Some other) = (Inr (), w)"
      and other: "device other \<noteq> None"
  proof -
    obtain code v where drv: "iio_device_set_trigger io before (device this) (device other) = (code, v)"
      by (cases "iio_device_set_trigger io before (device this) (device other)")
    with set have "code = 0" "v = w"
      by (auto simp: IIODevice_setTrigger_def split: if_splits)
    with drv law have "iio_device_get_trigger io w (device this) = (0, device other)"
      by blast
    with assms have "ret = 0" "trig = device other"
      by simp_all
    with outcome other show ?thesis
      by (simp add: IIODevice_eq_def)
  qed
  show ?thesis
    using outcome round_trip by (auto simp: failure_kind_def)
qed

theorem trigger_outcomes_witness:
  "iio_device_get_trigger idle_driver no_triggers (device dev1) = (0, None)
   \<and> failure_kind (IIODevice_trigger idle_driver no_triggers dev1) = Some NotFound
   \<and> fst (IIODevice_setTrigger idle_driver no_triggers dev1 (Some dev2)) = Inr ()
   \<and> device dev2 = Some 5
   \<and> IIODevice_trigger idle_driver
        (snd (IIODevice_setTrigger idle_driver no_triggers dev1 (Some dev2))) dev1
       = Inr dev2
   \<and> IIODevice_eq dev2 dev2"
proof -
  let ?w = "snd (IIODevice_setTrigger idle_driver no_triggers dev1 (Some dev2))"
  have none: "iio_device_get_trigger idle_driver no_triggers (device dev1) = (0, None)"
    by (simp add: idle_driver_def no_triggers_def)
  have law: "\<forall>v d t v'. iio_device_set_trigger idle_driver v d t = (0, v') \<longrightarrow>
                        iio_device_get_trigger idle_driver v' d = (0, t)"
    by (auto simp: idle_driver_def)
  have set: "IIODevice_setTrigger idle_driver no_triggers dev1 (Some dev2) = (Inr (), ?w)"
    by (simp add: IIODevice_setTrigger_def idle_driver_def)
  have other: "device dev2 \<noteq> None"
    by (simp add: dev2_def)
  have get: "iio_device_get_trigger idle_driver ?w (device dev1) = (0, Some 5)"
    by (simp add: IIODevice_setTrigger_def idle_driver_def dev2_def)
  have "\<exists>r. IIODevice_trigger idle_driver ?w dev1 = Inr r \<and> IIODevice_eq r dev2"
    using trigger_outcomes [OF get, of no_triggers dev2] law set other by blast
  then have same: "IIODevice_eq dev2 dev2"
    by (simp add: IIODevice_eq_def)
  have returned: "IIODevice_trigger idle_driver ?w dev1 = Inr dev2"
    using trigger_outcomes [OF get, of no_triggers dev2] by (simp add: dev1_def dev2_def)
  have absent: "failure_kind (IIODevice_trigger idle_driver no_triggers dev1) = Some NotFound"
    using trigger_outcomes [OF none, of no_triggers dev2] by simp
  have accepted: "fst (IIODevice_setTrigger idle_driver no_triggers dev1 (Some dev2)) = Inr ()"
    by (simp add: IIODevice_setTrigger_def idle_driver_def)
  have handle: "device dev2 = Some 5"
    by (simp add: dev2_def)
  from none absent accepted handle returned same show ?thesis
    by (intro conjI)
qed

section \<open>Construction failures\<close>

text \<open>
  C4. Construction of the native context handle and of a buffer is claimed to fail
  with the \<open>ResourceUnavailable\<close> kind when the driver cannot create the resource.
  With a driver that returns no context, and with one that returns no buffer, the
  constructor throws, and the kind of what it throws is \<open>SystemError\<close>, not
  \<open>ResourceUnavailable\<close>.
\<close>

theorem ctor_failure_kind_counterexample:
  "failure_kind (IIOContextRaw_ctor failing_driver)
     = Some SystemError
   \<and> failure_kind (IIOContextRaw_ctor failing_driver)
     \<noteq> Some ResourceUnavailable
   \<and> failure_kind
       (IIODevice_createBuffer failing_driver
          dev1 16 False)
     = Some SystemError
   \<and> failure_kind
       (IIODevice_createBuffer failing_driver
          dev1 16 False)
     \<noteq> Some ResourceUnavailable"
  by (simp add: failure_kind_def IIOContextRaw_ctor_def IIODevice_createBuffer_def
      IIOBuffer_ctor_def failing_driver_def idle_driver_def)

text \<open>
  C4, amended. When the driver returns no context, respectively no buffer, the
  construction fails with a \<^verbatim>\<open>SystemException\<close>, of kind \<open>SystemError\<close>, whose text
  is the name of the driver call followed by the message of the last error.
\<close>

theorem creation_failure_is_SystemError:
  "(iio_create_local_context io = None \<longrightarrow>
      IIOContextRaw_ctor io =
        Inl (SystemException ''IIOContextRaw::IIOContextRaw()''
              (''iio_create_local_context: '' @ Error_getMessage io (Error_last io)))
      \<and> failure_kind (IIOContextRaw_ctor io) = Some SystemError)
   \<and> (iio_device_create_buffer io (device this) n cyclic = None \<longrightarrow>
      IIODevice_createBuffer io this n cyclic =
        Inl (SystemException ''IIOBuffer::IIOBuffer()''
              (''iio_device_create_buffer: '' @ Error_getMessage io (Error_last io)))
      \<and> failure_kind (IIODevice_createBuffer io this n cyclic) = Some SystemError)"
  by (simp add: failure_kind_def IIOContextRaw_ctor_def IIODevice_createBuffer_def
      IIOBuffer_ctor_def)

theorem creation_failure_is_SystemError_witness:
  "iio_create_local_context
      failing_driver
     = None
   \<and> iio_device_create_buffer
      failing_driver
      (device dev1) 16 False = None
   \<and> IIOContextRaw_ctor
      failing_driver
     = Inl (SystemException ''IIOContextRaw::IIOContextRaw()''
             ''iio_create_local_context: No such device'')
   \<and> IIODevice_createBuffer
      failing_driver
      dev1 16 False
     = Inl (SystemException ''IIOBuffer::IIOBuffer()''
             ''iio_device_create_buffer: No such device'')"
  using creation_failure_is_SystemError
    [of failing_driver dev1 16 False]
  by (simp add: failing_driver_def idle_driver_def)

section \<open>Element type of a channel\<close>

lemma unat_blob_dimension:
  "unat (ucast ((w :: 32 word) div 8) :: 64 word) = unat w div 8"
proof -
  have "unat (w div 8) < 2 ^ 32"
    using unsigned_less [of "w div 8"] by simp
  then have "unat (w div 8) < 2 ^ 64"
    by simp
  then have "unat (ucast (w div 8) :: 64 word) = unat (w div 8)"
    by (simp add: unsigned_ucast_eq take_bit_nat_eq_self)
  then show ?thesis
    by (simp add: unat_div)
qed

lemma dtype_canonical:
  assumes "iio_channel_get_data_format io (channel this) = f"
    and "length_bits f \<in> {8, 16, 32, 64}"
  shows "\<exists>t. IIOChannel_dtype io this = DType t 1
            \<and> fixed_width_int t = Some (unat (length_bits f), is_signed f)"
  using assms by (auto simp: IIOChannel_dtype_def)

lemma dtype_other:
  assumes "iio_channel_get_data_format io (channel this) = f"
    and "length_bits f \<notin> {8, 16, 32, 64}"
  shows "IIOChannel_dtype io this = DType typeid_char (ucast (length_bits f div 8))"
  using assms by (auto simp: IIOChannel_dtype_def)

text \<open>
  C7. Every bit width other than 8, 16, 32 and 64 is claimed to map to an opaque
  byte-blob type of that exact byte size. The source divides the width by 8 in
  unsigned arithmetic: a format of 12 bits gets a blob of 1 byte, which is not the
  size of 12 bits, and a format of 4 bits gets a blob of 0 bytes.
\<close>

theorem dtype_narrow_counterexample:
  "length_bits (iio_channel_get_data_format narrow_driver (channel chn1)) = 12
   \<and> IIOChannel_dtype narrow_driver chn1 = DType typeid_char 1
   \<and> 8 * DType_size (IIOChannel_dtype narrow_driver chn1) < 12
   \<and> length_bits (iio_channel_get_data_format narrow_driver (channel chn2)) = 4
   \<and> IIOChannel_dtype narrow_driver chn2 = DType typeid_char 0
   \<and> DType_size (IIOChannel_dtype narrow_driver chn2) = 0"
  by (simp add: IIOChannel_dtype_def narrow_driver_def idle_driver_def chn1_def chn2_def)

text \<open>
  C7, amended. \<^verbatim>\<open>dtype()\<close> has no failure path: it returns a type for every format
  the driver reports. For the bit widths 8, 16, 32 and 64 the result is the single
  fixed-width integer type of that width and signedness, so the eight combinations
  give eight different types (two channels with canonical widths that get the same
  type have the same width and signedness). For every other width the result is
  \<^verbatim>\<open>char\<close> with the dimension \<open>length div 8\<close>: not a fixed-width integer, and of a
  size in bytes equal to the bit width divided by 8 and rounded down, which is the
  exact size of the sample when, and only when, the width is a whole number of bytes.
\<close>

theorem dtype_mapping:
  assumes f: "iio_channel_get_data_format io (channel this) = f"
    and g: "iio_channel_get_data_format io (channel that) = g"
  shows "(length_bits f \<in> {8, 16, 32, 64} \<longrightarrow>
            (\<exists>t. IIOChannel_dtype io this = DType t 1
               \<and> fixed_width_int t = Some (unat (length_bits f), is_signed f)))
       \<and> (length_bits f \<in> {8, 16, 32, 64} \<and> length_bits g \<in> {8, 16, 32, 64}
            \<and> IIOChannel_dtype io this = IIOChannel_dtype io that \<longrightarrow>
            length_bits f = length_bits g \<and> is_signed f = is_signed g)
       \<and> (length_bits f \<notin> {8, 16, 32, 64} \<longrightarrow>
            IIOChannel_dtype io this = DType typeid_char (ucast (length_bits f div 8))
            \<and> fixed_width_int (DType_elem (IIOChannel_dtype io this)) = None
            \<and> DType_size (IIOChannel_dtype io this) = unat (length_bits f) div 8
            \<and> 8 * DType_size (IIOChannel_dtype io this) \<le> unat (length_bits f)
            \<and> unat (length_bits f) < 8 * DType_size (IIOChannel_dtype io this) + 8
            \<and> (8 * DType_size (IIOChannel_dtype io this) = unat (length_bits f)
                 \<longleftrightarrow> 8 dvd unat (length_bits f)))"
proof (intro conjI impI)
  assume "length_bits f \<in> {8, 16, 32, 64}"
  then show "\<exists>t. IIOChannel_dtype io this = DType t 1
               \<and> fixed_width_int t = Some (unat (length_bits f), is_signed f)"
    by (rule dtype_canonical [OF f])
next
  assume a: "length_bits f \<in> {8, 16, 32, 64} \<and> length_bits g \<in> {8, 16, 32, 64}
            \<and> IIOChannel_dtype io this = IIOChannel_dtype io that"
  from a dtype_canonical [OF f] obtain t where
    t: "IIOChannel_dtype io this = DType t 1"
       "fixed_width_int t = Some (unat (length_bits f), is_signed f)" by blast
  from a dtype_canonical [OF g] obtain u where
    u: "IIOChannel_dtype io that = DType u 1"
       "fixed_width_int u = Some (unat (length_bits g), is_signed g)" by blast
  from a t u have "t = u" by simp
  with t u have "unat (length_bits f) = unat (length_bits g)" "is_signed f = is_signed g"
    by simp_all
  then show "length_bits f = length_bits g" "is_signed f = is_signed g"
    by (simp_all add: word_unat_eq_iff)
next
  assume n: "length_bits f \<notin> {8, 16, 32, 64}"
  show "IIOChannel_dtype io this = DType typeid_char (ucast (length_bits f div 8))"
    by (rule dtype_other [OF f n])
  then show size: "DType_size (IIOChannel_dtype io this) = unat (length_bits f) div 8"
    by (simp add: unat_blob_dimension)
  from \<open>IIOChannel_dtype io this = DType typeid_char (ucast (length_bits f div 8))\<close>
  show "fixed_width_int (DType_elem (IIOChannel_dtype io this)) = None"
    by simp
  from size show "8 * DType_size (IIOChannel_dtype io this) \<le> unat (length_bits f)"
    by simp
  from size show "unat (length_bits f) < 8 * DType_size (IIOChannel_dtype io this) + 8"
    by (simp add: dividend_less_times_div)
  from size show "8 * DType_size (IIOChannel_dtype io this) = unat (length_bits f)
      \<longleftrightarrow> 8 dvd unat (length_bits f)"
    by (simp add: dvd_eq_mod_eq_0) presburger
qed

theorem dtype_mapping_witness:
  "iio_channel_get_data_format mixed_driver (channel chn1) = \<lparr>length_bits = 16, is_signed = True\<rparr>
   \<and> iio_channel_get_data_format mixed_driver (channel chn2) = \<lparr>length_bits = 24, is_signed = False\<rparr>
   \<and> iio_channel_get_data_format narrow_driver (channel chn1) = \<lparr>length_bits = 12, is_signed = False\<rparr>
   \<and> (16 :: uint) \<in> {8, 16, 32, 64} \<and> (24 :: uint) \<notin> {8, 16, 32, 64}
   \<and> (12 :: uint) \<notin> {8, 16, 32, 64}
   \<and> IIOChannel_dtype mixed_driver chn1 = DType typeid_int16_t 1
   \<and> IIOChannel_dtype mixed_driver chn2 = DType typeid_char 3
   \<and> DType_size (IIOChannel_dtype mixed_driver chn2) = 3
   \<and> IIOChannel_dtype narrow_driver chn1 = DType typeid_char 1
   \<and> DType_size (IIOChannel_dtype narrow_driver chn1) = 1"
proof -
  have f: "iio_channel_get_data_format mixed_driver (channel chn1)
      = \<lparr>length_bits = 16, is_signed = True\<rparr>"
    by (simp add: mixed_driver_def chn1_def)
  have g: "iio_channel_get_data_format mixed_driver (channel chn2)
      = \<lparr>length_bits = 24, is_signed = False\<rparr>"
    by (simp add: mixed_driver_def chn2_def)
  have h: "iio_channel_get_data_format narrow_driver (channel chn1)
      = \<lparr>length_bits = 12, is_signed = False\<rparr>"
    by (simp add: narrow_driver_def chn1_def)
  have d: "IIOChannel_dtype mixed_driver chn1 = DType typeid_int16_t 1"
    using f by (simp add: IIOChannel_dtype_def)
  show ?thesis
    using dtype_mapping [OF f f] dtype_mapping [OF g g] dtype_mapping [OF h h] f g h d
    by simp
qed

section \<open>Lifetime of a buffer\<close>

lemma owners_append: "owners p (xs @ ys) = owners p xs + owners p ys"
  by (simp add: owners_def)

lemma owners_split:
  assumes "i < length bs"
  shows "owners p bs =
    owners p (take i bs) + (if buffer (bs ! i) = p then 1 else 0) + owners p (drop (Suc i) bs)"
proof -
  have "bs = take i bs @ [bs ! i] @ drop (Suc i) bs"
    using assms by (simp add: id_take_nth_drop)
  then have "owners p bs = owners p (take i bs @ [bs ! i] @ drop (Suc i) bs)"
    by simp
  then show ?thesis
    by (simp add: owners_def)
qed

lemma owners_update:
  assumes "i < length bs"
  shows "owners p (bs[i := b]) =
    owners p (take i bs) + (if buffer b = p then 1 else 0) + owners p (drop (Suc i) bs)"
proof -
  have "bs[i := b] = take i bs @ [b] @ drop (Suc i) bs"
    using assms by (simp add: upd_conv_take_nth_drop)
  then show ?thesis
    by (simp add: owners_def)
qed

lemma move_fields:
  "buffer (fst (IIOBuffer_move b)) = buffer b"
  "buf_ctx (fst (IIOBuffer_move b)) = buf_ctx b"
  "buffer (snd (IIOBuffer_move b)) = None"
  "buf_ctx (snd (IIOBuffer_move b)) = None"
  by (simp_all add: IIOBuffer_move_def)

lemma dtor_count:
  assumes "p \<noteq> None"
  shows "count_list (IIOBuffer_dtor b rel) p =
    count_list rel p + (if buffer b = p then 1 else 0)"
  using assms by (auto simp: IIOBuffer_dtor_def iio_buffer_destroy_def)

lemma step_accounted:
  assumes "p \<noteq> None" and "accounted p s"
  shows "accounted p (step s e)"
proof (cases e)
  case (Move i)
  show ?thesis
  proof (cases "i < length (alive s)")
    case True
    let ?b = "alive s ! i"
    have old: "owners p ((alive s)[i := snd (IIOBuffer_move ?b)]) =
        owners p (take i (alive s)) + owners p (drop (Suc i) (alive s))"
      using assms(1) by (auto simp: owners_update [OF True] move_fields)
    have new: "owners p [fst (IIOBuffer_move ?b)] = (if buffer ?b = p then 1 else 0)"
      by (simp add: owners_def move_fields)
    have "owners p ((alive s)[i := snd (IIOBuffer_move ?b)] @ [fst (IIOBuffer_move ?b)])
        = owners p (alive s)"
      unfolding owners_append old new owners_split [OF True, of p] by simp
    then show ?thesis
      using True Move assms(2) by (simp add: accounted_def split_beta)
  next
    case False
    then show ?thesis using Move assms(2) by simp
  qed
next
  case (Destroy i)
  show ?thesis
  proof (cases "i < length (alive s)")
    case True
    then show ?thesis
      using Destroy assms
      by (simp add: accounted_def owners_append owners_split [OF True, of p] dtor_count)
  next
    case False
    then show ?thesis using Destroy assms(2) by simp
  qed
qed

lemma run_accounted:
  assumes "p \<noteq> None" and "accounted p s"
  shows "accounted p (run s es)"
  using assms(2) unfolding run_def
  by (induction es arbitrary: s) (simp_all add: step_accounted [OF assms(1)])

lemma createBuffer_not_null:
  assumes "IIODevice_createBuffer io dev n cyclic = Inr b"
  shows "buffer b \<noteq> None"
  using assms
  by (auto simp: IIODevice_createBuffer_def IIOBuffer_ctor_def Let_def split: if_splits)


text \<open>
  C8. For a buffer \<open>b\<close> that \<^verbatim>\<open>createBuffer\<close> returned, alive next to any other buffers
  that do not hold its region: the region is not null; moving \<open>b\<close> gives the new
  object the region and the context and leaves the source without a region, so that
  destroying the source releases nothing; destroying \<open>b\<close> itself, never moved,
  releases its region once; and in every program of moves and destructions the
  region is never released more than once, and has been released exactly once when
  no object is alive any more.
\<close>

theorem buffer_released_exactly_once:
  assumes "IIODevice_createBuffer io dev n cyclic = Inr b"
    and "owners (buffer b) others = 0"
  shows "buffer b \<noteq> None
    \<and> buffer (fst (IIOBuffer_move b)) = buffer b
    \<and> buf_ctx (fst (IIOBuffer_move b)) = buf_ctx b
    \<and> buffer (snd (IIOBuffer_move b)) = None
    \<and> IIOBuffer_dtor (snd (IIOBuffer_move b)) rel = rel
    \<and> IIOBuffer_dtor b rel = rel @ [buffer b]
    \<and> count_list (released (run \<lparr>alive = b # others, released = []\<rparr> es)) (buffer b) \<le> 1
    \<and> (alive (run \<lparr>alive = b # others, released = []\<rparr> es) = [] \<longrightarrow>
         count_list (released (run \<lparr>alive = b # others, released = []\<rparr> es)) (buffer b) = 1)"
proof -
  let ?s = "\<lparr>alive = b # others, released = []\<rparr>"
  have nn: "buffer b \<noteq> None"
    by (rule createBuffer_not_null [OF assms(1)])
  have "accounted (buffer b) ?s"
    using assms(2) by (simp add: accounted_def owners_def)
  then have acc: "accounted (buffer b) (run ?s es)"
    by (rule run_accounted [OF nn])
  have once: "count_list (released (run ?s es)) (buffer b) \<le> 1"
    using acc by (simp add: accounted_def)
  have final: "alive (run ?s es) = [] \<longrightarrow> count_list (released (run ?s es)) (buffer b) = 1"
    using acc by (auto simp: accounted_def owners_def)
  have moved: "IIOBuffer_dtor (snd (IIOBuffer_move b)) rel = rel"
    by (simp add: IIOBuffer_dtor_def move_fields)
  have plain: "IIOBuffer_dtor b rel = rel @ [buffer b]"
    using nn by (simp add: IIOBuffer_dtor_def iio_buffer_destroy_def)
  show ?thesis
    using nn once final moved plain by (simp add: move_fields)
qed

theorem buffer_released_exactly_once_witness:
  "IIODevice_createBuffer idle_driver dev1 16 False = Inr buf1
   \<and> owners (buffer buf1) [] = 0
   \<and> alive (run \<lparr>alive = [buf1], released = []\<rparr> [Move 0, Destroy 0, Move 0, Destroy 0, Destroy 0]) = []
   \<and> released (run \<lparr>alive = [buf1], released = []\<rparr> [Move 0, Destroy 0, Move 0, Destroy 0, Destroy 0])
       = [Some 7]
   \<and> count_list
        (released (run \<lparr>alive = [buf1], released = []\<rparr> [Move 0, Destroy 0, Move 0, Destroy 0, Destroy 0]))
        (buffer buf1) = 1"
proof -
  have c: "IIODevice_createBuffer idle_driver dev1 16 False = Inr buf1"
    by (simp add: IIODevice_createBuffer_def IIOBuffer_ctor_def idle_driver_def dev1_def buf1_def)
  have o: "owners (buffer buf1) [] = 0"
    by (simp add: owners_def)
  have r: "run \<lparr>alive = [buf1], released = []\<rparr> [Move 0, Destroy 0, Move 0, Destroy 0, Destroy 0]
     = \<lparr>alive = [], released = [Some 7]\<rparr>"
    by (simp add: run_def IIOBuffer_move_def IIOBuffer_dtor_def iio_buffer_destroy_def buf1_def)
  show ?thesis
    using buffer_released_exactly_once
      [OF c o, of "[]" "[Move 0, Destroy 0, Move 0, Destroy 0, Destroy 0]"] c o r
    by simp
qed

section \<open>Lookup of an attribute by name\<close>

lemma at_loop_unfold:
  "at_loop name \<lparr>it_parent = p, idx = i\<rparr> \<lparr>it_parent = p, idx = n\<rparr> =
     (if i = n then Inl (RangeException ''IIOAttr<T>::at()'' ''attribute not found'')
      else if i > iio_get_attrs_count p
      then Inl (RangeException ''IIOAttrs<T>::Iterator::operator*()'' ''iterator out of range'')
      else (case iio_get_attr p i of
              None \<Rightarrow> Inl NullPointerDereference
            | Some s \<Rightarrow> if s = name then Inr \<lparr>attr_parent = p, attr = Some s\<rparr>
                        else at_loop name \<lparr>it_parent = p, idx = Suc i\<rparr> \<lparr>it_parent = p, idx = n\<rparr>))"
  by (subst at_loop.simps)
     (simp add: Iterator_eq_def Iterator_deref_def IIOAttr_name_def Iterator_incr_def
        split: option.split)

lemma at_loop_skip:
  assumes "i + k \<le> iio_get_attrs_count p"
    and "i + k \<le> n"
    and "\<forall>j. i \<le> j \<and> j < i + k \<longrightarrow> (\<exists>s. iio_get_attr p j = Some s \<and> s \<noteq> name)"
  shows "at_loop name \<lparr>it_parent = p, idx = i\<rparr> \<lparr>it_parent = p, idx = n\<rparr> =
         at_loop name \<lparr>it_parent = p, idx = i + k\<rparr> \<lparr>it_parent = p, idx = n\<rparr>"
  using assms
proof (induction k arbitrary: i)
  case 0
  then show ?case by simp
next
  case (Suc k)
  from Suc.prems(3) obtain s where s: "iio_get_attr p i = Some s" "s \<noteq> name"
    by force
  have step: "at_loop name \<lparr>it_parent = p, idx = i\<rparr> \<lparr>it_parent = p, idx = n\<rparr> =
      at_loop name \<lparr>it_parent = p, idx = Suc i\<rparr> \<lparr>it_parent = p, idx = n\<rparr>"
    using Suc.prems(1,2) s by (subst at_loop_unfold) simp
  have "at_loop name \<lparr>it_parent = p, idx = Suc i\<rparr> \<lparr>it_parent = p, idx = n\<rparr> =
      at_loop name \<lparr>it_parent = p, idx = Suc i + k\<rparr> \<lparr>it_parent = p, idx = n\<rparr>"
    using Suc.prems by (intro Suc.IH) auto
  with step show ?case by simp
qed

lemma at_found:
  assumes "j < iio_get_attrs_count (parent this)"
    and "iio_get_attr (parent this) j = Some name"
    and "\<forall>k < j. \<exists>s. iio_get_attr (parent this) k = Some s \<and> s \<noteq> name"
  shows "IIOAttrs_at this name = Inr \<lparr>attr_parent = parent this, attr = Some name\<rparr>"
proof -
  let ?p = "parent this" and ?n = "iio_get_attrs_count (parent this)"
  have "at_loop name \<lparr>it_parent = ?p, idx = 0\<rparr> \<lparr>it_parent = ?p, idx = ?n\<rparr> =
        at_loop name \<lparr>it_parent = ?p, idx = 0 + j\<rparr> \<lparr>it_parent = ?p, idx = ?n\<rparr>"
    using assms by (intro at_loop_skip) auto
  also have "\<dots> = Inr \<lparr>attr_parent = ?p, attr = Some name\<rparr>"
    using assms(1,2) by (subst at_loop_unfold) simp
  finally show ?thesis
    by (simp add: IIOAttrs_at_def IIOAttrs_begin_def IIOAttrs_end_def IIOAttrs_size_def)
qed

lemma at_not_found:
  assumes "\<forall>k < iio_get_attrs_count (parent this).
             \<exists>s. iio_get_attr (parent this) k = Some s \<and> s \<noteq> name"
  shows "IIOAttrs_at this name = Inl (RangeException ''IIOAttr<T>::at()'' ''attribute not found'')"
proof -
  let ?p = "parent this" and ?n = "iio_get_attrs_count (parent this)"
  have "at_loop name \<lparr>it_parent = ?p, idx = 0\<rparr> \<lparr>it_parent = ?p, idx = ?n\<rparr> =
        at_loop name \<lparr>it_parent = ?p, idx = 0 + ?n\<rparr> \<lparr>it_parent = ?p, idx = ?n\<rparr>"
    using assms by (intro at_loop_skip) auto
  also have "\<dots> = Inl (RangeException ''IIOAttr<T>::at()'' ''attribute not found'')"
    by (subst at_loop_unfold) simp
  finally show ?thesis
    by (simp add: IIOAttrs_at_def IIOAttrs_begin_def IIOAttrs_end_def IIOAttrs_size_def)
qed


lemma length_visited [simp]:
  "length (visited this) = iio_get_attrs_count (parent this)"
  "length (visited_names this) = iio_get_attrs_count (parent this)"
  by (simp_all add: visited_names_def visited_def IIOAttrs_size_def)

lemma visited_nth:
  assumes "i < iio_get_attrs_count (parent this)"
  shows "visited this ! i = Inr \<lparr>attr_parent = parent this, attr = iio_get_attr (parent this) i\<rparr>"
  using assms by (simp add: visited_def IIOAttrs_size_def Iterator_deref_def)

lemma visited_names_nth:
  assumes "i < iio_get_attrs_count (parent this)"
  shows "visited_names this ! i =
    (case iio_get_attr (parent this) i of None \<Rightarrow> Inl NullPointerDereference | Some s \<Rightarrow> Inr s)"
  using assms by (simp add: visited_names_def visited_nth IIOAttr_name_def)

lemma at_null:
  assumes "j < iio_get_attrs_count (parent this)"
    and "iio_get_attr (parent this) j = None"
    and "\<forall>k < j. \<exists>s. iio_get_attr (parent this) k = Some s \<and> s \<noteq> name"
  shows "IIOAttrs_at this name = Inl NullPointerDereference"
proof -
  let ?p = "parent this" and ?n = "iio_get_attrs_count (parent this)"
  have "at_loop name \<lparr>it_parent = ?p, idx = 0\<rparr> \<lparr>it_parent = ?p, idx = ?n\<rparr> =
        at_loop name \<lparr>it_parent = ?p, idx = 0 + j\<rparr> \<lparr>it_parent = ?p, idx = ?n\<rparr>"
    using assms by (intro at_loop_skip) auto
  also have "\<dots> = Inl NullPointerDereference"
    using assms(1,2) by (subst at_loop_unfold) simp
  finally show ?thesis
    by (simp add: IIOAttrs_at_def IIOAttrs_begin_def IIOAttrs_end_def IIOAttrs_size_def)
qed

lemma visited_names_Inr:
  assumes "k < iio_get_attrs_count (parent this)"
  shows "visited_names this ! k = Inr s \<longleftrightarrow> iio_get_attr (parent this) k = Some s"
  using assms by (simp add: visited_names_nth split: option.splits)

lemma visited_names_Inl:
  assumes "k < iio_get_attrs_count (parent this)"
  shows "visited_names this ! k = Inl NullPointerDereference
     \<longleftrightarrow> iio_get_attr (parent this) k = None"
  using assms by (simp add: visited_names_nth split: option.splits)

lemma named_before:
  assumes "j \<le> iio_get_attrs_count (parent this)"
  shows "(\<forall>k < j. \<exists>s. visited_names this ! k = Inr s \<and> s \<noteq> name)
     \<longleftrightarrow> (\<forall>k < j. \<exists>s. iio_get_attr (parent this) k = Some s \<and> s \<noteq> name)"
  using assms by (auto simp: visited_names_Inr)

lemma named_all:
  "(\<forall>x \<in> set (visited_names this). \<exists>s. x = Inr s \<and> s \<noteq> name)
     \<longleftrightarrow> (\<forall>k < iio_get_attrs_count (parent this).
            \<exists>s. iio_get_attr (parent this) k = Some s \<and> s \<noteq> name)"
proof -
  have "(\<forall>x \<in> set (visited_names this). \<exists>s. x = Inr s \<and> s \<noteq> name)
     \<longleftrightarrow> (\<forall>k < iio_get_attrs_count (parent this).
            \<exists>s. visited_names this ! k = Inr s \<and> s \<noteq> name)"
    by (simp add: all_set_conv_all_nth)
  then show ?thesis
    by (simp add: named_before)
qed

text \<open>
  C9. \<^verbatim>\<open>at(name)\<close> is claimed, for every attribute collection, to return an attribute
  with that name whenever a full iteration visits the name, and to fail with a range
  error when no visited attribute matches. With a collection whose driver answers
  with a null name for the second of three attributes, the iteration visits the
  name \<^verbatim>\<open>rate\<close> at the third, and \<^verbatim>\<open>at("rate")\<close> reads the null name on its way
  there; \<^verbatim>\<open>at("bias")\<close>, which no attribute matches, does the same and throws no
  range error.
\<close>

theorem at_unnamed_counterexample:
  "visited_names holed_attrs = [Inr ''gain'', Inl NullPointerDereference, Inr ''rate'']
   \<and> IIOAttrs_at holed_attrs ''rate'' = Inl NullPointerDereference
   \<and> IIOAttrs_at holed_attrs ''bias'' = Inl NullPointerDereference"
proof -
  have v: "visited_names holed_attrs = [Inr ''gain'', Inl NullPointerDereference, Inr ''rate'']"
    by (simp add: visited_names_def visited_def holed_attrs_def IIOAttrs_size_def
        Iterator_deref_def IIOAttr_name_def upt_rec)
  have n: "1 < iio_get_attrs_count (parent holed_attrs)"
    and h: "iio_get_attr (parent holed_attrs) 1 = None"
    by (simp_all add: holed_attrs_def)
  have b: "\<forall>k < 1. \<exists>s. iio_get_attr (parent holed_attrs) k = Some s \<and> s \<noteq> name"
    if "name \<noteq> ''gain''" for name
    using that by (simp add: holed_attrs_def)
  have "IIOAttrs_at holed_attrs ''rate'' = Inl NullPointerDereference"
    by (rule at_null [OF n h b]) simp
  moreover have "IIOAttrs_at holed_attrs ''bias'' = Inl NullPointerDereference"
    by (rule at_null [OF n h b]) simp
  ultimately show ?thesis
    using v by simp
qed

text \<open>
  C9, amended. For every attribute collection, \<^verbatim>\<open>at(name)\<close> scans the iteration
  sequence in order. If the \<open>j\<close>-th attribute visited has that name and every one
  visited before it has a name, a different one, \<^verbatim>\<open>at(name)\<close> returns the \<open>j\<close>-th
  attribute, the first match, whose \<^verbatim>\<open>name()\<close> equals the name. If every visited
  attribute has a name and none matches, it fails with the range error of the
  source. It reads a null name exactly when an attribute without a name is visited
  before any match.
\<close>

theorem at_finds_first_visited:
  "(j < length (visited this) \<and> visited_names this ! j = Inr name
      \<and> (\<forall>k < j. \<exists>s. visited_names this ! k = Inr s \<and> s \<noteq> name) \<longrightarrow>
      (\<exists>a. IIOAttrs_at this name = Inr a \<and> IIOAttr_name a = Inr name
          \<and> visited this ! j = Inr a))
   \<and> ((\<forall>x \<in> set (visited_names this). \<exists>s. x = Inr s \<and> s \<noteq> name) \<longrightarrow>
      IIOAttrs_at this name = Inl (RangeException ''IIOAttr<T>::at()'' ''attribute not found'')
      \<and> failure_kind (IIOAttrs_at this name) = Some RangeError)
   \<and> (IIOAttrs_at this name = Inl NullPointerDereference \<longleftrightarrow>
      (\<exists>j < length (visited this). visited_names this ! j = Inl NullPointerDereference
          \<and> (\<forall>k < j. \<exists>s. visited_names this ! k = Inr s \<and> s \<noteq> name)))"
proof (intro conjI impI)
  let ?p = "parent this" and ?n = "iio_get_attrs_count (parent this)"
  assume a: "j < length (visited this) \<and> visited_names this ! j = Inr name
      \<and> (\<forall>k < j. \<exists>s. visited_names this ! k = Inr s \<and> s \<noteq> name)"
  then have j: "j < ?n" by simp
  from a j have at_j: "iio_get_attr ?p j = Some name"
    by (simp add: visited_names_Inr)
  from a j have before: "\<forall>k < j. \<exists>s. iio_get_attr ?p k = Some s \<and> s \<noteq> name"
    by (simp add: named_before)
  let ?a = "\<lparr>attr_parent = ?p, attr = Some name\<rparr>"
  have "IIOAttrs_at this name = Inr ?a"
    by (rule at_found [OF j at_j before])
  moreover have "IIOAttr_name ?a = Inr name"
    by (simp add: IIOAttr_name_def)
  moreover have "visited this ! j = Inr ?a"
    using j at_j by (simp add: visited_nth)
  ultimately show "\<exists>a. IIOAttrs_at this name = Inr a \<and> IIOAttr_name a = Inr name
      \<and> visited this ! j = Inr a"
    by blast
next
  assume "\<forall>x \<in> set (visited_names this). \<exists>s. x = Inr s \<and> s \<noteq> name"
  then have "\<forall>k < iio_get_attrs_count (parent this).
      \<exists>s. iio_get_attr (parent this) k = Some s \<and> s \<noteq> name"
    by (simp only: named_all)
  then have r: "IIOAttrs_at this name =
      Inl (RangeException ''IIOAttr<T>::at()'' ''attribute not found'')"
    by (rule at_not_found)
  then show "IIOAttrs_at this name =
      Inl (RangeException ''IIOAttr<T>::at()'' ''attribute not found'')" .
  from r show "failure_kind (IIOAttrs_at this name) = Some RangeError"
    by (simp add: failure_kind_def)
next
  let ?p = "parent this" and ?n = "iio_get_attrs_count (parent this)"
  let ?stop = "\<lambda>j. j < ?n \<and> (iio_get_attr ?p j = None \<or> iio_get_attr ?p j = Some name)"
  show "IIOAttrs_at this name = Inl NullPointerDereference \<longleftrightarrow>
      (\<exists>j < length (visited this). visited_names this ! j = Inl NullPointerDereference
          \<and> (\<forall>k < j. \<exists>s. visited_names this ! k = Inr s \<and> s \<noteq> name))"
  proof
    assume null: "IIOAttrs_at this name = Inl NullPointerDereference"
    have "\<exists>j. ?stop j"
    proof (rule ccontr)
      assume "\<not> (\<exists>j. ?stop j)"
      then have "\<forall>k < ?n. \<exists>s. iio_get_attr ?p k = Some s \<and> s \<noteq> name"
        by auto
      then have "IIOAttrs_at this name =
          Inl (RangeException ''IIOAttr<T>::at()'' ''attribute not found'')"
        by (rule at_not_found)
      with null show False by simp
    qed
    then obtain j where j: "?stop j" and least: "\<forall>k < j. \<not> ?stop k"
      using exists_least_iff [of ?stop] by blast
    from j have jn: "j < ?n" by simp
    have before: "\<forall>k < j. \<exists>s. iio_get_attr ?p k = Some s \<and> s \<noteq> name"
    proof (intro allI impI)
      fix k assume "k < j"
      with least jn have "iio_get_attr ?p k \<noteq> None" "iio_get_attr ?p k \<noteq> Some name"
        by auto
      then show "\<exists>s. iio_get_attr ?p k = Some s \<and> s \<noteq> name"
        by auto
    qed
    have "iio_get_attr ?p j = None"
    proof (rule ccontr)
      assume "iio_get_attr ?p j \<noteq> None"
      with j have "iio_get_attr ?p j = Some name" by simp
      then have "IIOAttrs_at this name = Inr \<lparr>attr_parent = ?p, attr = Some name\<rparr>"
        by (rule at_found [OF jn _ before])
      with null show False by simp
    qed
    with jn have "visited_names this ! j = Inl NullPointerDereference"
      by (simp add: visited_names_Inl)
    moreover from before jn
    have "\<forall>k < j. \<exists>s. visited_names this ! k = Inr s \<and> s \<noteq> name"
      by (simp add: named_before)
    ultimately show "\<exists>j < length (visited this).
        visited_names this ! j = Inl NullPointerDereference
          \<and> (\<forall>k < j. \<exists>s. visited_names this ! k = Inr s \<and> s \<noteq> name)"
      using jn by auto
  next
    assume "\<exists>j < length (visited this). visited_names this ! j = Inl NullPointerDereference
          \<and> (\<forall>k < j. \<exists>s. visited_names this ! k = Inr s \<and> s \<noteq> name)"
    then obtain j where jn: "j < ?n"
      and hole: "visited_names this ! j = Inl NullPointerDereference"
      and named: "\<forall>k < j. \<exists>s. visited_names this ! k = Inr s \<and> s \<noteq> name"
      by auto
    from jn hole have h: "iio_get_attr ?p j = None"
      by (simp add: visited_names_Inl)
    from jn named have b: "\<forall>k < j. \<exists>s. iio_get_attr ?p k = Some s \<and> s \<noteq> name"
      by (simp add: named_before)
    show "IIOAttrs_at this name = Inl NullPointerDereference"
      by (rule at_null [OF jn h b])
  qed
qed

theorem at_finds_first_visited_witness:
  "visited_names gain_attrs = [Inr ''gain'', Inr ''rate'', Inr ''gain'']
   \<and> (\<exists>a. IIOAttrs_at gain_attrs ''rate'' = Inr a \<and> IIOAttr_name a = Inr ''rate''
          \<and> visited gain_attrs ! 1 = Inr a)
   \<and> IIOAttrs_at gain_attrs ''bias''
       = Inl (RangeException ''IIOAttr<T>::at()'' ''attribute not found'')
   \<and> (\<exists>a. IIOAttrs_at holed_attrs ''gain'' = Inr a \<and> IIOAttr_name a = Inr ''gain''
          \<and> visited holed_attrs ! 0 = Inr a)"
proof -
  have v: "visited_names gain_attrs = [Inr ''gain'', Inr ''rate'', Inr ''gain'']"
    by (simp add: visited_names_def visited_def gain_attrs_def table_owner_def IIOAttrs_size_def
        Iterator_deref_def IIOAttr_name_def upt_rec)
  have w: "visited_names holed_attrs = [Inr ''gain'', Inl NullPointerDereference, Inr ''rate'']"
    by (simp add: visited_names_def visited_def holed_attrs_def IIOAttrs_size_def
        Iterator_deref_def IIOAttr_name_def upt_rec)
  have l: "length (visited gain_attrs) = 3" "length (visited holed_attrs) = 3"
    by (simp_all add: gain_attrs_def holed_attrs_def table_owner_def)
  have rate: "1 < length (visited gain_attrs) \<and> visited_names gain_attrs ! 1 = Inr ''rate''
      \<and> (\<forall>k < 1. \<exists>s. visited_names gain_attrs ! k = Inr s \<and> s \<noteq> ''rate'')"
    using v l by simp
  have bias: "\<forall>x \<in> set (visited_names gain_attrs). \<exists>s. x = Inr s \<and> s \<noteq> ''bias''"
    using v by simp
  have gain: "0 < length (visited holed_attrs) \<and> visited_names holed_attrs ! 0 = Inr ''gain''
      \<and> (\<forall>k < 0. \<exists>s. visited_names holed_attrs ! k = Inr s \<and> s \<noteq> ''gain'')"
    using w l by simp
  have "\<exists>a. IIOAttrs_at gain_attrs ''rate'' = Inr a \<and> IIOAttr_name a = Inr ''rate''
          \<and> visited gain_attrs ! 1 = Inr a"
    using at_finds_first_visited [of 1 gain_attrs "''rate''"] rate by blast
  moreover have "IIOAttrs_at gain_attrs ''bias''
       = Inl (RangeException ''IIOAttr<T>::at()'' ''attribute not found'')"
    using at_finds_first_visited [of 0 gain_attrs "''bias''"] bias by blast
  moreover have "\<exists>a. IIOAttrs_at holed_attrs ''gain'' = Inr a \<and> IIOAttr_name a = Inr ''gain''
          \<and> visited holed_attrs ! 0 = Inr a"
    using at_finds_first_visited [of 0 holed_attrs "''gain''"] gain by blast
  ultimately show ?thesis
    using v by (intro conjI)
qed

section \<open>Reading the value of an attribute\<close>

lemma strnlen_from_ge: "i \<le> strnlen_from s i k"
  by (induction k arbitrary: i) (auto intro: Suc_leD)

lemma strnlen_from_truncates:
  assumes "k \<le> m \<or> (\<exists>z. i \<le> z \<and> z < i + m \<and> s z = CHR 0x00)"
  shows "map s [i..<strnlen_from s i k] =
         take k (takeWhile (\<lambda>c. c \<noteq> CHR 0x00) (map s [i..<i + m]))"
  using assms
proof (induction k arbitrary: i m)
  case 0
  then show ?case by simp
next
  case (Suc k)
  from Suc.prems have "m \<noteq> 0" by auto
  then obtain m' where m: "m = Suc m'" by (cases m) auto
  have range: "[i..<i + m] = i # [Suc i..<Suc i + m']"
    using m by (simp add: upt_conv_Cons)
  show ?case
  proof (cases "s i = CHR 0x00")
    case True
    then show ?thesis by (simp add: range)
  next
    case False
    have "k \<le> m' \<or> (\<exists>z. Suc i \<le> z \<and> z < Suc i + m' \<and> s z = CHR 0x00)"
      using Suc.prems False m
      by (metis Suc_le_mono Suc_leI add_Suc add_Suc_right le_neq_implies_less)
    then have IH: "map s [Suc i..<strnlen_from s (Suc i) k] =
         take k (takeWhile (\<lambda>c. c \<noteq> CHR 0x00) (map s [Suc i..<Suc i + m']))"
      by (rule Suc.IH)
    have "[i..<strnlen_from s (Suc i) k] = i # [Suc i..<strnlen_from s (Suc i) k]"
      using strnlen_from_ge [of "Suc i" s k] by (simp add: upt_conv_Cons)
    then show ?thesis
      using False IH by (simp add: range)
  qed
qed

lemma strnlen_reads_inside:
  assumes "k \<le> m \<or> (\<exists>z. i \<le> z \<and> z < i + m \<and> s z = CHR 0x00)"
  shows "\<forall>j \<in> set (strnlen_reads_from s i k). j < i + m"
  using assms
proof (induction k arbitrary: i m)
  case 0
  then show ?case by simp
next
  case (Suc k)
  from Suc.prems have "m \<noteq> 0" by auto
  then obtain m' where m: "m = Suc m'" by (cases m) auto
  show ?case
  proof (cases "s i = CHR 0x00")
    case True
    then show ?thesis using m by simp
  next
    case False
    have "k \<le> m' \<or> (\<exists>z. Suc i \<le> z \<and> z < Suc i + m' \<and> s z = CHR 0x00)"
      using Suc.prems False m
      by (metis Suc_le_mono Suc_leI add_Suc add_Suc_right le_neq_implies_less)
    then have "\<forall>j \<in> set (strnlen_reads_from s (Suc i) k). j < Suc i + m'"
      by (rule Suc.IH)
    then show ?thesis
      using False m by simp
  qed
qed

lemma strnlen_reads_outside:
  assumes "m < k" and "\<forall>z. i \<le> z \<and> z < i + m \<longrightarrow> s z \<noteq> CHR 0x00"
  shows "i + m \<in> set (strnlen_reads_from s i k)"
  using assms
proof (induction m arbitrary: i k)
  case 0
  then obtain k' where "k = Suc k'" by (cases k) auto
  then show ?case by simp
next
  case (Suc m)
  then obtain k' where k: "k = Suc k'" by (cases k) auto
  have "s i \<noteq> CHR 0x00"
    using Suc.prems(2) by simp
  moreover have "Suc i + m \<in> set (strnlen_reads_from s (Suc i) k')"
    using Suc.prems k by (intro Suc.IH) auto
  ultimately show ?case
    using k by simp
qed

lemma strnlen_reads_length: "length (strnlen_reads_from s i k) \<le> k"
  by (induction k arbitrary: i) auto


lemma strnlen_from_no_null:
  assumes "\<forall>z. i \<le> z \<and> z < i + k \<longrightarrow> s z \<noteq> CHR 0x00"
  shows "strnlen_from s i k = i + k"
  using assms
proof (induction k arbitrary: i)
  case 0
  then show ?case by simp
next
  case (Suc k)
  have "s i \<noteq> CHR 0x00"
    using Suc.prems by simp
  moreover have "strnlen_from s (Suc i) k = Suc i + k"
    using Suc.prems by (intro Suc.IH) auto
  ultimately show ?case by simp
qed

lemma scan_inside_iff:
  "(\<forall>j \<in> set (strnlen_reads buf n). j < sizeof_buf) \<longleftrightarrow>
   (n \<le> sizeof_buf \<or> (\<exists>z < sizeof_buf. buf z = CHR 0x00))"
proof
  assume inside: "\<forall>j \<in> set (strnlen_reads buf n). j < sizeof_buf"
  show "n \<le> sizeof_buf \<or> (\<exists>z < sizeof_buf. buf z = CHR 0x00)"
  proof (rule ccontr)
    assume "\<not> (n \<le> sizeof_buf \<or> (\<exists>z < sizeof_buf. buf z = CHR 0x00))"
    then have "sizeof_buf < n" "\<forall>z. 0 \<le> z \<and> z < 0 + sizeof_buf \<longrightarrow> buf z \<noteq> CHR 0x00"
      by auto
    then have "0 + sizeof_buf \<in> set (strnlen_reads_from buf 0 n)"
      by (rule strnlen_reads_outside)
    with inside show False
      by (auto simp: strnlen_reads_def)
  qed
next
  assume "n \<le> sizeof_buf \<or> (\<exists>z < sizeof_buf. buf z = CHR 0x00)"
  then have "n \<le> sizeof_buf \<or> (\<exists>z. 0 \<le> z \<and> z < 0 + sizeof_buf \<and> buf z = CHR 0x00)"
    by auto
  then have "\<forall>j \<in> set (strnlen_reads_from buf 0 n). j < 0 + sizeof_buf"
    by (rule strnlen_reads_inside)
  then show "\<forall>j \<in> set (strnlen_reads buf n). j < sizeof_buf"
    by (simp add: strnlen_reads_def)
qed

lemma string_is_truncated:
  assumes "n \<le> sizeof_buf \<or> (\<exists>z < sizeof_buf. buf z = CHR 0x00)"
  shows "map buf [0..<strnlen buf n] = truncated buf n"
proof -
  from assms have "n \<le> sizeof_buf \<or> (\<exists>z. 0 \<le> z \<and> z < 0 + sizeof_buf \<and> buf z = CHR 0x00)"
    by auto
  then have "map buf [0..<strnlen_from buf 0 n] =
      take n (takeWhile (\<lambda>c. c \<noteq> CHR 0x00) (map buf [0..<0 + sizeof_buf]))"
    by (rule strnlen_from_truncates)
  then show ?thesis
    by (simp add: strnlen_def truncated_def)
qed

lemma to_string_cases:
  assumes "iio_attr_read (attr_parent this) (attr this) sizeof_buf = (ret, buf)"
  shows "IIOAttr_to_string io this =
     (if ret < 0
      then Inl (SystemException ''IIOAttr<T>::operator std::string()''
                 (''iio_attr_read: '' @ Error_getMessage io (- ret)))
      else if nat ret \<le> sizeof_buf \<or> (\<exists>z < sizeof_buf. buf z = CHR 0x00)
      then Inr (truncated buf (nat ret))
      else Inl BufferOverread)"
proof -
  have "(\<exists>i \<in> set (strnlen_reads buf (nat ret)). sizeof_buf \<le> i) \<longleftrightarrow>
      \<not> (\<forall>j \<in> set (strnlen_reads buf (nat ret)). j < sizeof_buf)"
    by (auto simp: not_less)
  also have "\<dots> \<longleftrightarrow> \<not> (nat ret \<le> sizeof_buf \<or> (\<exists>z < sizeof_buf. buf z = CHR 0x00))"
    by (simp only: scan_inside_iff)
  finally have over: "(\<exists>i \<in> set (strnlen_reads buf (nat ret)). sizeof_buf \<le> i) \<longleftrightarrow>
      \<not> (nat ret \<le> sizeof_buf \<or> (\<exists>z < sizeof_buf. buf z = CHR 0x00))" .
  show ?thesis
  proof (cases "nat ret \<le> sizeof_buf \<or> (\<exists>z < sizeof_buf. buf z = CHR 0x00)")
    case True
    then show ?thesis
      using assms over string_is_truncated [OF True]
      by (simp add: IIOAttr_to_string_def)
  next
    case False
    with over have "\<exists>i \<in> set (strnlen_reads buf (nat ret)). sizeof_buf \<le> i"
      by simp
    with False show ?thesis
      using assms by (auto simp: IIOAttr_to_string_def)
  qed
qed

lemma truncated_length: "length (truncated buf n) \<le> sizeof_buf"
proof -
  have "length (takeWhile (\<lambda>c. c \<noteq> CHR 0x00) (map buf [0..<sizeof_buf]))
      \<le> length (map buf [0..<sizeof_buf])"
    by (rule length_takeWhile_le)
  then show ?thesis
    by (simp add: truncated_def)
qed

text \<open>
  C5. Reading a value is claimed to give, for every non-negative return code \<open>ret\<close>
  of the driver's read, the scratch contents cut at the first null byte or at \<open>ret\<close>
  bytes. With a read that returns 1025 and leaves no null byte in the 1024 bytes of
  the scratch array, the length scan of the source runs past the array, and the
  result is not the cut contents.
\<close>

theorem value_overlong_counterexample:
  "fst (iio_attr_read (attr_parent long_attr) (attr long_attr) sizeof_buf) = 1025
   \<and> IIOAttr_value idle_driver long_attr = Inl BufferOverread
   \<and> IIOAttr_value idle_driver long_attr \<noteq> Inr (truncated unterminated (nat 1025))"
proof -
  have r: "iio_attr_read (attr_parent long_attr) (attr long_attr) sizeof_buf = (1025, unterminated)"
    by (simp add: long_attr_def table_owner_def)
  have "\<not> (nat 1025 \<le> sizeof_buf \<or> (\<exists>z < sizeof_buf. unterminated z = CHR 0x00))"
    by (simp add: sizeof_buf_def unterminated_def)
  then have "IIOAttr_to_string idle_driver long_attr = Inl BufferOverread"
    using to_string_cases [OF r, of idle_driver] by simp
  then show ?thesis
    using r by (simp add: IIOAttr_value_def)
qed

text \<open>
  C5, amended. Reading a value (\<^verbatim>\<open>value()\<close> and the string conversion) fails with
  \<open>SystemError\<close> exactly when the driver's read returns a negative code. When it
  returns a non-negative \<open>ret\<close> that is at most the capacity of 1024, or the scratch
  array holds a null byte, the result is the scratch contents cut at the first null
  byte or at \<open>ret\<close> bytes, whichever comes first, and never longer than the capacity.
\<close>

theorem value_within_capacity:
  assumes "iio_attr_read (attr_parent this) (attr this) sizeof_buf = (ret, buf)"
  shows "(failure_kind (IIOAttr_value io this) = Some SystemError \<longleftrightarrow> ret < 0)
       \<and> (failure_kind (IIOAttr_to_string io this) = Some SystemError \<longleftrightarrow> ret < 0)
       \<and> (0 \<le> ret \<and> (ret \<le> int sizeof_buf \<or> (\<exists>z < sizeof_buf. buf z = CHR 0x00)) \<longrightarrow>
            IIOAttr_value io this = Inr (truncated buf (nat ret))
          \<and> IIOAttr_to_string io this = Inr (truncated buf (nat ret))
          \<and> length (truncated buf (nat ret)) \<le> sizeof_buf)"
  using to_string_cases [OF assms, of io] truncated_length [of buf "nat ret"]
  by (auto simp: IIOAttr_value_def failure_kind_def)

theorem value_within_capacity_witness:
  "iio_attr_read (attr_parent short_attr) (attr short_attr) sizeof_buf = (3, text42)
   \<and> (0::int) \<le> 3 \<and> 3 \<le> int sizeof_buf
   \<and> IIOAttr_value idle_driver short_attr = Inr ''42''
   \<and> truncated text42 (nat 3) = ''42''"
proof -
  have r: "iio_attr_read (attr_parent short_attr) (attr short_attr) sizeof_buf = (3, text42)"
    by (simp add: short_attr_def table_owner_def)
  have s: "strnlen_reads text42 (nat 3) = [0, 1, 2]" "strnlen text42 (nat 3) = 2"
    by (simp_all add: strnlen_reads_def strnlen_def text42_def eval_nat_numeral)
  have m: "map text42 [0..<2] = ''42''"
    by (simp add: text42_def upt_rec)
  have v: "IIOAttr_value idle_driver short_attr = Inr ''42''"
    using r s m by (simp add: IIOAttr_value_def IIOAttr_to_string_def sizeof_buf_def)
  show ?thesis
    using value_within_capacity [OF r, of idle_driver] r v
    by (simp add: sizeof_buf_def)
qed

text \<open>
  C10. The scan that determines the length of the result is claimed to read only
  within the scratch array for every non-negative \<open>ret\<close>, as if bounded by the
  minimum of \<open>ret\<close> and the capacity. With \<open>ret\<close> = 1025 over memory without a null
  byte the scan reads the byte at offset 1024, the first one outside the array, and
  the length it finds differs from the one a scan bounded by the minimum finds.
\<close>

theorem scan_reads_past_buffer_counterexample:
  "sizeof_buf \<in> set (strnlen_reads unterminated (nat 1025))
   \<and> strnlen unterminated (nat 1025) \<noteq> strnlen unterminated (min (nat 1025) sizeof_buf)"
proof -
  have no: "\<And>i k. \<forall>z. i \<le> z \<and> z < i + k \<longrightarrow> unterminated z \<noteq> CHR 0x00"
    by (simp add: unterminated_def)
  have "0 + sizeof_buf \<in> set (strnlen_reads_from unterminated 0 (nat 1025))"
    by (rule strnlen_reads_outside) (simp_all add: sizeof_buf_def unterminated_def)
  moreover have "strnlen unterminated n = n" for n
    using strnlen_from_no_null [OF no, of 0 n] by (simp add: strnlen_def)
  ultimately show ?thesis
    by (simp add: strnlen_reads_def sizeof_buf_def)
qed

text \<open>
  C10, amended. For a non-negative \<open>ret\<close> the bound of the scan is \<open>ret\<close> itself: the
  scan reads at most \<open>ret\<close> bytes, and it reads only within the 1024-byte scratch
  array exactly when \<open>ret\<close> is at most 1024 or the array holds a null byte. In all
  other cases, and only then, the conversion reads past the array.
\<close>

theorem scan_bound_is_ret:
  assumes "iio_attr_read (attr_parent this) (attr this) sizeof_buf = (ret, buf)"
    and "0 \<le> ret"
  shows "length (strnlen_reads buf (nat ret)) \<le> nat ret
       \<and> ((\<forall>i \<in> set (strnlen_reads buf (nat ret)). i < sizeof_buf) \<longleftrightarrow>
            (ret \<le> int sizeof_buf \<or> (\<exists>z < sizeof_buf. buf z = CHR 0x00)))
       \<and> (IIOAttr_to_string io this = Inl BufferOverread \<longleftrightarrow>
            \<not> (ret \<le> int sizeof_buf \<or> (\<exists>z < sizeof_buf. buf z = CHR 0x00)))"
proof -
  have eq: "nat ret \<le> sizeof_buf \<longleftrightarrow> ret \<le> int sizeof_buf"
    using assms(2) by auto
  have "length (strnlen_reads buf (nat ret)) \<le> nat ret"
    by (simp add: strnlen_reads_def strnlen_reads_length)
  moreover have "(\<forall>i \<in> set (strnlen_reads buf (nat ret)). i < sizeof_buf) \<longleftrightarrow>
            (ret \<le> int sizeof_buf \<or> (\<exists>z < sizeof_buf. buf z = CHR 0x00))"
    using scan_inside_iff [of buf "nat ret"] eq by simp
  moreover have "IIOAttr_to_string io this = Inl BufferOverread \<longleftrightarrow>
            \<not> (ret \<le> int sizeof_buf \<or> (\<exists>z < sizeof_buf. buf z = CHR 0x00))"
    using to_string_cases [OF assms(1), of io] assms(2) eq by auto
  ultimately show ?thesis by blast
qed

theorem scan_bound_is_ret_witness:
  "iio_attr_read (attr_parent short_attr) (attr short_attr) sizeof_buf = (3, text42)
   \<and> (0::int) \<le> 3 \<and> 3 \<le> int sizeof_buf
   \<and> strnlen_reads text42 (nat 3) = [0, 1, 2]
   \<and> IIOAttr_to_string idle_driver short_attr \<noteq> Inl BufferOverread"
proof -
  have r: "iio_attr_read (attr_parent short_attr) (attr short_attr) sizeof_buf = (3, text42)"
    by (simp add: short_attr_def table_owner_def)
  have z: "(0::int) \<le> 3" by simp
  have s: "strnlen_reads text42 (nat 3) = [0, 1, 2]"
    by (simp add: strnlen_reads_def text42_def eval_nat_numeral)
  show ?thesis
    using scan_bound_is_ret [OF r z, of idle_driver] r s
    by (simp add: sizeof_buf_def)
qed

end
